theory Spec2Isabelle
  imports Complex_Main "HOL-Library.Word"
begin

section \<open>JavaScript strings\<close>

text \<open>
  A JavaScript string is a sequence of UTF-16 code units. The regular expression
  \<^verbatim>\<open>/\s/g\<close> (no \<^verbatim>\<open>u\<close> flag), \<^verbatim>\<open>trim\<close>, \<^verbatim>\<open>split\<close> and \<^verbatim>\<open>includes\<close> all
  work on code units, so strings are modelled as lists of 16-bit words. An ASCII literal
  of the source is written \<open>js ''...''\<close>: for ASCII the code unit is the character code.
\<close>

type_synonym code_unit = "16 word"
type_synonym jsstring = "code_unit list"

definition js :: "string \<Rightarrow> jsstring" where
  "js s = map of_char s"

definition newline :: code_unit where
  "newline = 0x0A"

text \<open>
  The characters matched by \<^verbatim>\<open>\s\<close> and stripped by \<^verbatim>\<open>trim\<close>: ECMAScript's
  WhiteSpace (TAB, VT, FF, SP, NBSP, ZWNBSP and the Unicode space separators) together
  with its LineTerminator (LF, CR, LS, PS). All of them are single code units.
\<close>

definition isWhiteSpace :: "code_unit \<Rightarrow> bool" where
  "isWhiteSpace c \<longleftrightarrow>
     c \<in> set [0x09, 0x0A, 0x0B, 0x0C, 0x0D, 0x20, 0xA0, 0x1680,
              0x2000, 0x2001, 0x2002, 0x2003, 0x2004, 0x2005, 0x2006, 0x2007,
              0x2008, 0x2009, 0x200A, 0x2028, 0x2029, 0x202F, 0x205F, 0x3000, 0xFEFF]"

text \<open>\<^verbatim>\<open>s.trim()\<close>: strip white space from both ends.\<close>

definition trim :: "jsstring \<Rightarrow> jsstring" where
  "trim s = rev (dropWhile isWhiteSpace (rev (dropWhile isWhiteSpace s)))"

text \<open>\<^verbatim>\<open>s.includes(k)\<close>: \<open>k\<close> occurs in \<open>s\<close> as a contiguous run of code units.\<close>

fun starts_with :: "jsstring \<Rightarrow> jsstring \<Rightarrow> bool" where
  "starts_with s [] = True"
| "starts_with [] (k # ks) = False"
| "starts_with (c # cs) (k # ks) = (c = k \<and> starts_with cs ks)"

fun includes_js :: "jsstring \<Rightarrow> jsstring \<Rightarrow> bool" where
  "includes_js [] k = (k = [])"
| "includes_js (c # cs) k = (starts_with (c # cs) k \<or> includes_js cs k)"

text \<open>\<^verbatim>\<open>s.split(sep)\<close> for a separator of one code unit; the result is never empty.\<close>

fun split_js :: "code_unit \<Rightarrow> jsstring \<Rightarrow> jsstring list" where
  "split_js sep [] = [[]]"
| "split_js sep (c # cs) =
     (if c = sep then [] # split_js sep cs
      else (case split_js sep cs of
              [] \<Rightarrow> [[c]]
            | piece # pieces \<Rightarrow> (c # piece) # pieces))"

text \<open>\<^verbatim>\<open>xs.join(sep)\<close> on an array of strings.\<close>

fun join_js :: "jsstring \<Rightarrow> jsstring list \<Rightarrow> jsstring" where
  "join_js sep [] = []"
| "join_js sep [p] = p"
| "join_js sep (p # q # ps) = p @ sep @ join_js sep (q # ps)"

text \<open>The decimal digits of a non-negative integer, as \<^verbatim>\<open>`${n}`\<close> prints it.\<close>

fun decimal :: "nat \<Rightarrow> jsstring" where
  "decimal n =
     (if n < 10 then [of_nat (48 + n)]
      else decimal (n div 10) @ [of_nat (48 + n mod 10)])"

declare decimal.simps [simp del]


section \<open>The graph store (types of the repository)\<close>

datatype node_type = Latent | Observed

datatype link_type = Directed | Covariance

text \<open>
  \<^verbatim>\<open>interface Node { id; label; type; x; y }\<close>. The coordinates are JavaScript
  numbers; they are modelled as reals, and nothing proved below depends on rounding.
\<close>

record node =
  id_node :: jsstring
  label :: jsstring
  type_node :: node_type
  x_node :: real
  y_node :: real

text \<open>\<^verbatim>\<open>interface Link { source; target; type? }\<close>: the kind of a link is optional.\<close>

record link =
  source :: jsstring
  target :: jsstring
  type_link :: "link_type option"


section \<open>The diagram editor (component ModelPreview)\<close>

datatype view_mode = Canvas | Mermaid

datatype interaction_mode = MoveMode | LinkMode

text \<open>
  The props \<open>nodes\<close>, \<open>links\<close>, \<open>isDarkMode\<close> (state of the parent, written through
  \<^verbatim>\<open>setNodes\<close> and \<^verbatim>\<open>setLinks\<close>) and the component's own \<^verbatim>\<open>useState\<close> cells.
\<close>

record editor =
  nodes :: "node list"
  links :: "link list"
  isDarkMode :: bool
  newNodeLabel :: jsstring
  nodeType :: node_type
  mermaidSyntax :: jsstring
  viewMode :: view_mode
  interactionMode :: interaction_mode
  linkType :: link_type
  linkingSourceId :: "jsstring option"
  tempLineEnd :: "(real \<times> real) option"

subsection \<open>Link creation by two clicks\<close>

text \<open>The test \<^verbatim>\<open>links.some(l => ...)\<close> of \<^verbatim>\<open>handleNodeClick\<close>.\<close>

definition link_exists :: "link list \<Rightarrow> link_type \<Rightarrow> jsstring \<Rightarrow> jsstring \<Rightarrow> bool" where
  "link_exists ls kind src clicked =
     list_ex (\<lambda>l. (source l = src \<and> target l = clicked) \<or>
                  (kind = Covariance \<and> source l = clicked \<and> target l = src)) ls"

definition handleNodeClick :: "jsstring \<Rightarrow> editor \<Rightarrow> editor" where
  "handleNodeClick clicked s =
     (if interactionMode s = LinkMode then
        (case linkingSourceId s of
           None \<Rightarrow> s\<lparr>linkingSourceId := Some clicked\<rparr>
         | Some src \<Rightarrow>
             if src = clicked then s\<lparr>linkingSourceId := None, tempLineEnd := None\<rparr>
             else
               (let s1 =
                  (if src \<noteq> clicked then
                     (if \<not> link_exists (links s) (linkType s) src clicked then
                        s\<lparr>links := links s @
                             [\<lparr>source = src, target = clicked, type_link = Some (linkType s)\<rparr>]\<rparr>
                      else s)
                   else s)
                in s1\<lparr>linkingSourceId := None, tempLineEnd := None\<rparr>))
      else s)"

text \<open>Creating a link from \<open>a\<close> to \<open>b\<close>: a click on \<open>a\<close>, then a click on \<open>b\<close>.\<close>

definition create_link :: "jsstring \<Rightarrow> jsstring \<Rightarrow> editor \<Rightarrow> editor" where
  "create_link a b s = handleNodeClick b (handleNodeClick a s)"

text \<open>
  The equivalence of the specification, in its words: an existing link with exactly the
  same source and target and, when the kind being created is covariance, also an existing
  link with the reversed pair.
\<close>

definition equivalent_link :: "link_type \<Rightarrow> jsstring \<Rightarrow> jsstring \<Rightarrow> link \<Rightarrow> bool" where
  "equivalent_link kind src tgt l \<longleftrightarrow>
     (source l = src \<and> target l = tgt) \<or>
     (kind = Covariance \<and> source l = tgt \<and> target l = src)"

definition joins :: "jsstring \<Rightarrow> jsstring \<Rightarrow> link \<Rightarrow> bool" where
  "joins a b l \<longleftrightarrow> (source l = a \<and> target l = b) \<or> (source l = b \<and> target l = a)"

definition from_to :: "jsstring \<Rightarrow> jsstring \<Rightarrow> link \<Rightarrow> bool" where
  "from_to a b l \<longleftrightarrow> source l = a \<and> target l = b"


subsection \<open>The other handlers\<close>

text \<open>
  \<^verbatim>\<open>addNode\<close>. \<open>now\<close> is the value of \<^verbatim>\<open>Date.now()\<close>, \<open>rx\<close> and \<open>ry\<close> are the two
  values of \<^verbatim>\<open>Math.random()\<close>.
\<close>

definition addNode :: "nat \<Rightarrow> real \<Rightarrow> real \<Rightarrow> editor \<Rightarrow> editor" where
  "addNode now rx ry s =
     (if trim (newNodeLabel s) = [] then s
      else
        (let newNode = \<lparr>id_node = js ''n'' @ decimal now, label = newNodeLabel s,
                         type_node = nodeType s,
                         x_node = 100 + rx * 50, y_node = 100 + ry * 50\<rparr>
         in s\<lparr>nodes := nodes s @ [newNode], newNodeLabel := []\<rparr>))"

text \<open>
  \<^verbatim>\<open>handleMouseMove\<close>: \<open>(cx, cy)\<close> is the pointer, \<open>(rleft, rtop)\<close> the corner of the
  canvas. The test \<^verbatim>\<open>linkingSourceId\<close> is a truthiness test: an empty id is falsy.
\<close>

definition handleMouseMove :: "real \<Rightarrow> real \<Rightarrow> real \<Rightarrow> real \<Rightarrow> editor \<Rightarrow> editor" where
  "handleMouseMove cx cy rleft rtop s =
     (if interactionMode s = LinkMode \<and>
         (case linkingSourceId s of None \<Rightarrow> False | Some i \<Rightarrow> i \<noteq> [])
      then s\<lparr>tempLineEnd := Some (cx - rleft, cy - rtop)\<rparr>
      else s)"

text \<open>\<^verbatim>\<open>removeLastLink\<close>: \<^verbatim>\<open>links.slice(0, -1)\<close> keeps the first \<open>length - 1\<close> links.\<close>

definition removeLastLink :: "editor \<Rightarrow> editor" where
  "removeLastLink s =
     (if length (links s) > 0 then s\<lparr>links := take (length (links s) - 1) (links s)\<rparr>
      else s)"

text \<open>\<^verbatim>\<open>clearAllLinks\<close>: \<open>confirmed\<close> is the answer of \<^verbatim>\<open>window.confirm\<close>.\<close>

definition clearAllLinks :: "bool \<Rightarrow> editor \<Rightarrow> editor" where
  "clearAllLinks confirmed s = (if confirmed then s\<lparr>links := []\<rparr> else s)"

text \<open>The two mode buttons.\<close>

definition setMoveMode :: "editor \<Rightarrow> editor" where
  "setMoveMode s = s\<lparr>interactionMode := MoveMode, linkingSourceId := None, tempLineEnd := None\<rparr>"

definition setLinkMode :: "editor \<Rightarrow> editor" where
  "setLinkMode s = s\<lparr>interactionMode := LinkMode, linkingSourceId := None\<rparr>"

text \<open>
  \<^verbatim>\<open>onDragEnd\<close> of the node \<open>n\<close>: \<open>rect\<close> is the bounding box of the parent element,
  absent when there is no parent.
\<close>

definition onDragEnd :: "node \<Rightarrow> real \<Rightarrow> real \<Rightarrow> (real \<times> real) option \<Rightarrow> editor \<Rightarrow> editor" where
  "onDragEnd n cx cy rect s =
     (if interactionMode s \<noteq> MoveMode then s
      else
        (case rect of
           None \<Rightarrow> s
         | Some (rleft, rtop) \<Rightarrow>
             (let newX = cx - rleft - (if type_node n = Latent then 50 else 60);
                  newY = cy - rtop - 25
              in s\<lparr>nodes := map (\<lambda>m. if id_node m = id_node n
                                        then m\<lparr>x_node := newX, y_node := newY\<rparr> else m)
                                 (nodes s)\<rparr>)))"

subsection \<open>The diagram-language generator\<close>

definition underscore :: code_unit where
  "underscore = 0x5F"

text \<open>\<^verbatim>\<open>node.label.replace(/\s/g, '_')\<close>\<close>

definition safeLabel :: "jsstring \<Rightarrow> jsstring" where
  "safeLabel l = map (\<lambda>c. if isWhiteSpace c then underscore else c) l"

fun node_type_name :: "node_type \<Rightarrow> jsstring" where
  "node_type_name Latent = js ''latent''"
| "node_type_name Observed = js ''observed''"

definition shape :: "node \<Rightarrow> jsstring" where
  "shape n =
     (if type_node n = Latent then js ''(('' @ safeLabel (label n) @ js ''))''
      else js ''['' @ safeLabel (label n) @ js '']'')"

definition node_line :: "node \<Rightarrow> jsstring" where
  "node_line n = id_node n @ shape n @ js '':::'' @ node_type_name (type_node n) @ [newline]"

definition arrow :: "link \<Rightarrow> jsstring" where
  "arrow l = (if type_link l = Some Covariance then js ''<-->'' else js ''-->'')"

definition link_line :: "link \<Rightarrow> jsstring" where
  "link_line l = source l @ js '' '' @ arrow l @ js '' '' @ target l @ [newline]"

text \<open>
  The body of the effect that regenerates the text: \<^verbatim>\<open>syntax\<close> starts afresh and
  grows by \<^verbatim>\<open>+=\<close>, once per node and once per link.
\<close>

definition generateSyntax :: "node list \<Rightarrow> link list \<Rightarrow> bool \<Rightarrow> jsstring" where
  "generateSyntax ns ls dark =
     (let syntax0 = js ''graph LR'' @ [newline];
          syntax1 =
            (if dark then
               (syntax0
                 @ js ''classDef latent fill:#1e293b,stroke:#e2e8f0,stroke-width:2px,rx:50,ry:50,color:#fff;'' @ [newline])
                 @ js ''classDef observed fill:#0f172a,stroke:#06b6d4,stroke-width:1px,rx:0,ry:0,color:#fff;'' @ [newline]
             else
               (syntax0
                 @ js ''classDef latent fill:#fff,stroke:#333,stroke-width:2px,rx:50,ry:50;'' @ [newline])
                 @ js ''classDef observed fill:#f0f9ff,stroke:#0891b2,stroke-width:1px,rx:0,ry:0;'' @ [newline]);
          syntax2 = foldl (\<lambda>syntax n. syntax @ node_line n) syntax1 ns;
          syntax3 = foldl (\<lambda>syntax l. syntax @ link_line l) syntax2 ls
      in syntax3)"

definition mermaidEffect :: "editor \<Rightarrow> editor" where
  "mermaidEffect s = s\<lparr>mermaidSyntax := generateSyntax (nodes s) (links s) (isDarkMode s)\<rparr>"

subsection \<open>The link layer of the canvas\<close>

text \<open>The attributes of an SVG line that vary; the others are constants of the source.\<close>

record svg_line =
  x1_line :: real
  y1_line :: real
  x2_line :: real
  y2_line :: real
  stroke :: jsstring
  markerStart :: "jsstring option"
  strokeDasharray :: "jsstring option"

text \<open>
  One element of \<^verbatim>\<open>links.map((link, idx) => ...)\<close>: \<open>None\<close> is the \<^verbatim>\<open>null\<close> that
  React does not draw.
\<close>

definition render_link :: "node list \<Rightarrow> bool \<Rightarrow> link \<Rightarrow> svg_line option" where
  "render_link ns dark l =
     (let src = find (\<lambda>n. id_node n = source l) ns;
          tgt = find (\<lambda>n. id_node n = target l) ns
      in case (src, tgt) of
           (Some sn, Some tn) \<Rightarrow>
             Some \<lparr>x1_line = x_node sn + (if type_node sn = Latent then 50 else 60),
                   y1_line = y_node sn + 25,
                   x2_line = x_node tn + (if type_node tn = Latent then 50 else 60),
                   y2_line = y_node tn + 25,
                   stroke = (if dark then js ''#94a3b8'' else js ''#64748b''),
                   markerStart = (if type_link l = Some Covariance
                                  then Some (js ''url(#arrowhead-start)'') else None),
                   strokeDasharray = (if type_link l = Some Covariance
                                      then Some (js ''5,5'') else None)\<rparr>
         | _ \<Rightarrow> None)"

definition renderLinks :: "node list \<Rightarrow> link list \<Rightarrow> bool \<Rightarrow> svg_line option list" where
  "renderLinks ns ls dark = map (render_link ns dark) ls"

subsection \<open>The interaction state machine\<close>

text \<open>
  The events of the component, each with the values the browser supplies. The last two
  come from the parent: the theme switch, and the graph read back from local storage.
\<close>

datatype event =
    AddClicked nat real real
  | NodeClicked jsstring
  | MouseMoved real real real real
  | UndoClicked
  | ClearClicked bool
  | MoveModeClicked
  | LinkModeClicked
  | LinkTypeClicked link_type
  | ViewModeClicked view_mode
  | NodeTypeChosen node_type
  | LabelTyped jsstring
  | DragEnded node real real "(real \<times> real) option"
  | ThemeToggled
  | GraphLoaded "node list" "link list"

text \<open>
  What an event does, with the guards of the rendering: the canvas and its buttons exist
  only in the canvas view, only a node of the list can be clicked or dragged, the link
  kind selector exists only in link mode, and the two link buttons are disabled on an
  empty link list.
\<close>

fun handle :: "event \<Rightarrow> editor \<Rightarrow> editor" where
  "handle (AddClicked now rx ry) s = addNode now rx ry s"
| "handle (NodeClicked i) s =
     (if viewMode s = Canvas \<and> i \<in> set (map id_node (nodes s)) then handleNodeClick i s else s)"
| "handle (MouseMoved cx cy rleft rtop) s =
     (if viewMode s = Canvas then handleMouseMove cx cy rleft rtop s else s)"
| "handle UndoClicked s =
     (if viewMode s = Canvas \<and> length (links s) \<noteq> 0 then removeLastLink s else s)"
| "handle (ClearClicked confirmed) s =
     (if viewMode s = Canvas \<and> length (links s) \<noteq> 0 then clearAllLinks confirmed s else s)"
| "handle MoveModeClicked s = (if viewMode s = Canvas then setMoveMode s else s)"
| "handle LinkModeClicked s = (if viewMode s = Canvas then setLinkMode s else s)"
| "handle (LinkTypeClicked k) s =
     (if viewMode s = Canvas \<and> interactionMode s = LinkMode then s\<lparr>linkType := k\<rparr> else s)"
| "handle (ViewModeClicked v) s = s\<lparr>viewMode := v\<rparr>"
| "handle (NodeTypeChosen t) s = s\<lparr>nodeType := t\<rparr>"
| "handle (LabelTyped l) s = s\<lparr>newNodeLabel := l\<rparr>"
| "handle (DragEnded n cx cy rect) s =
     (if viewMode s = Canvas \<and> n \<in> set (nodes s) then onDragEnd n cx cy rect s else s)"
| "handle ThemeToggled s = s\<lparr>isDarkMode := \<not> isDarkMode s\<rparr>"
| "handle (GraphLoaded ns ls) s = s\<lparr>nodes := ns, links := ls\<rparr>"

text \<open>After the handler, the effect regenerates the diagram text.\<close>

definition step :: "event \<Rightarrow> editor \<Rightarrow> editor" where
  "step e s = mermaidEffect (handle e s)"

text \<open>The component as mounted: the initial \<^verbatim>\<open>useState\<close> values, then the effect.\<close>

definition mount :: "node list \<Rightarrow> link list \<Rightarrow> bool \<Rightarrow> editor" where
  "mount ns ls dark =
     mermaidEffect
       \<lparr>nodes = ns, links = ls, isDarkMode = dark, newNodeLabel = [], nodeType = Latent,
        mermaidSyntax = [], viewMode = Canvas, interactionMode = MoveMode,
        linkType = Directed, linkingSourceId = None, tempLineEnd = None\<rparr>"

inductive reachable :: "editor \<Rightarrow> bool" where
  reachable_mount: "reachable (mount ns ls dark)"
| reachable_step: "reachable s \<Longrightarrow> reachable (step e s)"

fun run :: "event list \<Rightarrow> editor \<Rightarrow> editor" where
  "run [] s = s"
| "run (e # es) s = run es (step e s)"


section \<open>The table generator (component ApaTableGenerator)\<close>

definition comma :: code_unit where
  "comma = 0x2C"

text \<open>\<^verbatim>\<open>dataText.trim().split('\n').map(r => r.split(',').map(c => c.trim()))\<close>\<close>

definition parse_rows :: "jsstring \<Rightarrow> jsstring list list" where
  "parse_rows dataText =
     map (\<lambda>r. map trim (split_js comma r)) (split_js newline (trim dataText))"

text \<open>\<^verbatim>\<open>rows[0] || []\<close> and \<^verbatim>\<open>rows.slice(1)\<close>\<close>

definition allHeaders :: "jsstring list list \<Rightarrow> jsstring list" where
  "allHeaders rows = (case rows of [] \<Rightarrow> [] | r # _ \<Rightarrow> r)"

definition allBody :: "jsstring list list \<Rightarrow> jsstring list list" where
  "allBody rows = drop 1 rows"

text \<open>
  \<^verbatim>\<open>allHeaders.map((h, i) => hiddenColumns.includes(h) ? -1 : i).filter(i => i !== -1)\<close>
\<close>

definition visible_indices :: "jsstring list \<Rightarrow> jsstring list \<Rightarrow> int list" where
  "visible_indices headers hiddenColumns =
     filter (\<lambda>i. i \<noteq> - 1)
       (map (\<lambda>(i, h). if h \<in> set hiddenColumns then - 1 else int i) (enumerate 0 headers))"

text \<open>\<^verbatim>\<open>xs.filter((_, i) => indices.includes(i))\<close>\<close>

definition keep_indices :: "int list \<Rightarrow> 'a list \<Rightarrow> 'a list" where
  "keep_indices indices xs =
     map snd (filter (\<lambda>(i, _). int i \<in> set indices) (enumerate 0 xs))"

definition getVisibleData ::
  "jsstring list \<Rightarrow> jsstring list list \<Rightarrow> jsstring list \<Rightarrow> jsstring list \<times> jsstring list list"
where
  "getVisibleData headers body hiddenColumns =
     (let indices = visible_indices headers hiddenColumns;
          h = keep_indices indices headers;
          b = map (\<lambda>row. keep_indices indices row) body
      in (h, b))"

text \<open>The header and body the component renders for a text and a list of hidden columns.\<close>

definition visible_table ::
  "jsstring \<Rightarrow> jsstring list \<Rightarrow> jsstring list \<times> jsstring list list"
where
  "visible_table dataText hiddenColumns =
     (let rows = parse_rows dataText
      in getVisibleData (allHeaders rows) (allBody rows) hiddenColumns)"

text \<open>The positions of the columns that are not hidden.\<close>

definition visible_columns :: "jsstring list \<Rightarrow> jsstring list \<Rightarrow> nat set" where
  "visible_columns headers hiddenColumns =
     {i. i < length headers \<and> headers ! i \<notin> set hiddenColumns}"

definition toggleColumn :: "jsstring \<Rightarrow> jsstring list \<Rightarrow> jsstring list" where
  "toggleColumn col prev =
     (if col \<in> set prev then filter (\<lambda>c. c \<noteq> col) prev else prev @ [col])"

text \<open>\<^verbatim>\<open>s.replace(c, r)\<close> with a string pattern of one code unit: the first match only.\<close>

fun replace_first :: "code_unit \<Rightarrow> jsstring \<Rightarrow> jsstring \<Rightarrow> jsstring" where
  "replace_first c r [] = []"
| "replace_first c r (x # xs) = (if x = c then r @ xs else x # replace_first c r xs)"

text \<open>One line of the Markdown table: \<^verbatim>\<open>`| ${row.join(' | ')} |\n`\<close>\<close>

definition markdown_row :: "jsstring list \<Rightarrow> jsstring" where
  "markdown_row row = js ''| '' @ join_js (js '' | '') row @ js '' |'' @ [newline]"

text \<open>The text that \<^verbatim>\<open>handleCopyMarkdown\<close> writes to the clipboard.\<close>

definition handleCopyMarkdown ::
  "jsstring \<Rightarrow> jsstring \<Rightarrow> jsstring list \<Rightarrow> jsstring list list \<Rightarrow> jsstring"
where
  "handleCopyMarkdown title note header body =
     (let mdTable0 = js ''**'' @ replace_first newline (js ''**  '' @ [newline] @ js ''*'') title
                       @ js ''*'' @ [newline, newline];
          mdTable1 = mdTable0 @ markdown_row header;
          mdTable2 = mdTable1 @ markdown_row (map (\<lambda>_. js ''---'') header);
          mdTable3 = foldl (\<lambda>mdTable row. mdTable @ markdown_row row) mdTable2 body;
          mdTable4 = mdTable3 @ [newline] @ js ''*'' @ note @ js ''*''
      in mdTable4)"

text \<open>
  The cells of the preview (\<^verbatim>\<open>thead\<close>, then one list of \<^verbatim>\<open>td\<close> per \<^verbatim>\<open>tr\<close>) and the
  \<^verbatim>\<open>head\<close> and \<^verbatim>\<open>body\<close> that \<^verbatim>\<open>handleExportPDF\<close> passes to the PDF table library.
\<close>

definition preview_cells ::
  "jsstring list \<Rightarrow> jsstring list list \<Rightarrow> jsstring list \<times> jsstring list list"
where
  "preview_cells header body = (map (\<lambda>head. head) header, map (\<lambda>row. map (\<lambda>cell. cell) row) body)"

definition autoTable_input ::
  "jsstring list \<Rightarrow> jsstring list list \<Rightarrow> jsstring list list \<times> jsstring list list"
where
  "autoTable_input header body = ([header], body)"

text \<open>
  A table in which a short row has an empty cell at every position it lacks, as the
  specification describes it: each row is filled up to the header's length first.
\<close>

definition pad_row :: "nat \<Rightarrow> jsstring list \<Rightarrow> jsstring list" where
  "pad_row n row = row @ replicate (n - length row) []"

definition padded_table ::
  "jsstring \<Rightarrow> jsstring list \<Rightarrow> jsstring list \<times> jsstring list list"
where
  "padded_table dataText hiddenColumns =
     (let rows = parse_rows dataText
      in getVisibleData (allHeaders rows)
           (map (pad_row (length (allHeaders rows))) (allBody rows)) hiddenColumns)"


section \<open>The tool suggestion (handleSendMessage of App)\<close>

datatype ToolMode = CONCEPTUAL | FIT_CHECKER | APA_TABLE | JAMOVI

text \<open>
  The outcome of the call to the model service: it threw, or it returned a response
  whose \<^verbatim>\<open>answer\<close> may be absent.
\<close>

datatype reply = Failed | Replied "jsstring option"

text \<open>The Thai keyword of the source, U+0E15 U+0E32 U+0E23 U+0E32 U+0E07.\<close>

definition thai_table :: jsstring where
  "thai_table = [0x0E15, 0x0E32, 0x0E23, 0x0E32, 0x0E07]"

text \<open>
  The value of \<^verbatim>\<open>suggestedTool\<close> after \<^verbatim>\<open>handleSendMessage\<close>: it is reset to
  \<^verbatim>\<open>null\<close> before the call, and set from the reply in the \<^verbatim>\<open>try\<close> block.
  \<open>toLowerCase\<close> is the string method of the JavaScript runtime, taken as a parameter.
\<close>

definition suggestedTool_after ::
  "(jsstring \<Rightarrow> jsstring) \<Rightarrow> reply \<Rightarrow> ToolMode option \<Rightarrow> ToolMode option"
where
  "suggestedTool_after toLowerCase r suggestedTool =
     (let suggestedTool = None
      in case r of
           Failed \<Rightarrow> suggestedTool
         | Replied answer \<Rightarrow>
             (let lowerText =
                    (case answer of
                       None \<Rightarrow> []
                     | Some a \<Rightarrow> if toLowerCase a = [] then [] else toLowerCase a)
              in if includes_js lowerText (js ''cfi'') \<or> includes_js lowerText (js ''rmsea'')
                    \<or> includes_js lowerText (js ''fit index'')
                 then Some FIT_CHECKER
                 else if includes_js lowerText (js ''apa table'')
                         \<or> includes_js lowerText thai_table
                 then Some APA_TABLE
                 else if includes_js lowerText (js ''jamovi'')
                         \<or> includes_js lowerText (js ''syntax'')
                         \<or> includes_js lowerText (js ''code'')
                 then Some JAMOVI
                 else suggestedTool))"

text \<open>
  The heuristic in the words of the specification: keyword sets in a fixed priority
  order, the first set with a keyword that occurs in the text selects the panel.
\<close>

definition occurs_in :: "jsstring \<Rightarrow> jsstring \<Rightarrow> bool" where
  "occurs_in k s \<longleftrightarrow> (\<exists>before after. s = before @ k @ after)"

definition keyword_sets :: "(ToolMode \<times> jsstring list) list" where
  "keyword_sets =
     [(FIT_CHECKER, [js ''cfi'', js ''rmsea'', js ''fit index'']),
      (APA_TABLE, [js ''apa table'', thai_table]),
      (JAMOVI, [js ''jamovi'', js ''syntax'', js ''code''])]"

definition first_matching_set :: "jsstring \<Rightarrow> ToolMode option" where
  "first_matching_set text =
     map_option fst (find (\<lambda>(tool, keywords). \<exists>k \<in> set keywords. occurs_in k text) keyword_sets)"

text \<open>Lowercasing of ASCII letters, a \<open>toLowerCase\<close> to run the heuristic on ASCII texts.\<close>

definition ascii_lower :: "jsstring \<Rightarrow> jsstring" where
  "ascii_lower s = map (\<lambda>c. if 0x41 \<le> c \<and> c \<le> 0x5A then c + 0x20 else c) s"


section \<open>The default graph (App)\<close>

text \<open>The initial \<^verbatim>\<open>useState\<close> values of \<^verbatim>\<open>nodes\<close> and \<^verbatim>\<open>links\<close> in \<^verbatim>\<open>App\<close>.\<close>

definition default_nodes :: "node list" where
  "default_nodes =
     [\<lparr>id_node = js ''1'', label = js ''Leadership'', type_node = Latent, x_node = 50, y_node = 50\<rparr>,
      \<lparr>id_node = js ''2'', label = js ''Quality'', type_node = Latent, x_node = 250, y_node = 50\<rparr>,
      \<lparr>id_node = js ''3'', label = js ''Success'', type_node = Latent, x_node = 150, y_node = 200\<rparr>]"

definition default_links :: "link list" where
  "default_links =
     [\<lparr>source = js ''1'', target = js ''3'', type_link = Some Directed\<rparr>,
      \<lparr>source = js ''2'', target = js ''3'', type_link = Some Directed\<rparr>]"

definition default_editor :: editor where
  "default_editor = mount default_nodes default_links False"


section \<open>Link creation\<close>

lemma link_exists_iff:
  "link_exists ls kind src tgt \<longleftrightarrow> (\<exists>l \<in> set ls. equivalent_link kind src tgt l)"
  by (simp add: link_exists_def equivalent_link_def list_ex_iff)

lemma handleNodeClick_second:
  assumes "interactionMode s = LinkMode" "linkingSourceId s = Some p" "p \<noteq> c"
  shows "links (handleNodeClick c s) =
           (if link_exists (links s) (linkType s) p c then links s
            else links s @ [\<lparr>source = p, target = c, type_link = Some (linkType s)\<rparr>])"
    and "linkingSourceId (handleNodeClick c s) = None"
    and "interactionMode (handleNodeClick c s) = LinkMode"
    and "linkType (handleNodeClick c s) = linkType s"
  using assms by (simp_all add: handleNodeClick_def)

lemma handleNodeClick_first:
  assumes "interactionMode s = LinkMode" "linkingSourceId s = None"
  shows "handleNodeClick a s = s\<lparr>linkingSourceId := Some a\<rparr>"
  using assms by (simp add: handleNodeClick_def)

lemma create_link_links:
  assumes "interactionMode s = LinkMode" "linkingSourceId s = None" "a \<noteq> b"
  shows "links (create_link a b s) =
           (if link_exists (links s) (linkType s) a b then links s
            else links s @ [\<lparr>source = a, target = b, type_link = Some (linkType s)\<rparr>])"
    and "linkingSourceId (create_link a b s) = None"
    and "interactionMode (create_link a b s) = LinkMode"
    and "linkType (create_link a b s) = linkType s"
proof -
  let ?s1 = "handleNodeClick a s"
  have s1: "?s1 = s\<lparr>linkingSourceId := Some a\<rparr>"
    using assms(1,2) by (rule handleNodeClick_first)
  have pre: "interactionMode ?s1 = LinkMode" "linkingSourceId ?s1 = Some a"
    using assms(1) by (simp_all add: s1)
  show "links (create_link a b s) =
           (if link_exists (links s) (linkType s) a b then links s
            else links s @ [\<lparr>source = a, target = b, type_link = Some (linkType s)\<rparr>])"
    unfolding create_link_def using handleNodeClick_second(1) [OF pre assms(3)]
    by (simp add: s1)
  show "linkingSourceId (create_link a b s) = None"
    unfolding create_link_def by (rule handleNodeClick_second(2) [OF pre assms(3)])
  show "interactionMode (create_link a b s) = LinkMode"
    unfolding create_link_def by (rule handleNodeClick_second(3) [OF pre assms(3)])
  show "linkType (create_link a b s) = linkType s"
    unfolding create_link_def using handleNodeClick_second(4) [OF pre assms(3)]
    by (simp add: s1)
qed

lemma create_link_again:
  assumes "interactionMode s = LinkMode" "linkingSourceId s = None" "a \<noteq> b"
  shows "link_exists (links (create_link a b s)) (linkType s) a b"
  using create_link_links(1) [OF assms]
  by (auto simp: link_exists_def list_ex_iff)

lemma create_link_reversed:
  assumes "interactionMode s = LinkMode" "linkingSourceId s = None" "a \<noteq> b"
    and "linkType s = Covariance"
  shows "link_exists (links (create_link a b s)) Covariance b a"
  using create_link_links(1) [OF assms(1-3)] assms(4)
  by (auto simp: link_exists_def list_ex_iff)

lemma count_from_to:
  "length (filter (from_to a b) ls) = 0 \<longleftrightarrow> \<not> link_exists ls Directed a b"
  by (auto simp: link_exists_def list_ex_iff from_to_def filter_empty_conv)

lemma count_joins:
  "length (filter (joins a b) ls) = 0 \<longleftrightarrow> \<not> link_exists ls Covariance a b"
  by (auto simp: link_exists_def list_ex_iff joins_def filter_empty_conv)

text \<open>
  C1. In link mode, a second click on a node \<open>c\<close> different from the pending source \<open>p\<close>
  appends the link from \<open>p\<close> to \<open>c\<close> of the current kind to the end of the link list,
  unless an equivalent link exists, and then leaves the list as it is; equivalent is a link
  with the same source and target and, for a covariance link, also one with the two
  swapped. Creating a directed link from \<open>a\<close> to \<open>b\<close> twice adds it at most once: the
  second creation changes nothing, and the store holds exactly one link from \<open>a\<close> to \<open>b\<close>
  unless it held several before. Likewise a covariance link from \<open>a\<close> to \<open>b\<close> followed
  by an attempt from \<open>b\<close> to \<open>a\<close> leaves exactly one link between the two.
\<close>

theorem link_creation_rejects_equivalent:
  "(interactionMode s = LinkMode \<and> linkingSourceId s = Some p \<and> p \<noteq> c \<longrightarrow>
      links (handleNodeClick c s) =
        (if \<exists>l \<in> set (links s). equivalent_link (linkType s) p c l then links s
         else links s @ [\<lparr>source = p, target = c, type_link = Some (linkType s)\<rparr>]))
   \<and> (interactionMode s = LinkMode \<and> linkingSourceId s = None \<and> a \<noteq> b
        \<and> linkType s = Directed \<longrightarrow>
      links (create_link a b (create_link a b s)) = links (create_link a b s)
      \<and> length (filter (from_to a b) (links (create_link a b (create_link a b s))))
          = max 1 (length (filter (from_to a b) (links s)))
      \<and> (links s = [] \<longrightarrow>
           links (create_link a b (create_link a b s))
             = [\<lparr>source = a, target = b, type_link = Some Directed\<rparr>]))
   \<and> (interactionMode s = LinkMode \<and> linkingSourceId s = None \<and> a \<noteq> b
        \<and> linkType s = Covariance \<longrightarrow>
      links (create_link b a (create_link a b s)) = links (create_link a b s)
      \<and> length (filter (joins a b) (links (create_link b a (create_link a b s))))
          = max 1 (length (filter (joins a b) (links s)))
      \<and> (links s = [] \<longrightarrow>
           links (create_link b a (create_link a b s))
             = [\<lparr>source = a, target = b, type_link = Some Covariance\<rparr>]))"
proof (intro conjI impI)
  assume "interactionMode s = LinkMode \<and> linkingSourceId s = Some p \<and> p \<noteq> c"
  then show "links (handleNodeClick c s) =
        (if \<exists>l \<in> set (links s). equivalent_link (linkType s) p c l then links s
         else links s @ [\<lparr>source = p, target = c, type_link = Some (linkType s)\<rparr>])"
    using handleNodeClick_second(1) [of s p c] by (simp add: link_exists_iff)
next
  assume h: "interactionMode s = LinkMode \<and> linkingSourceId s = None \<and> a \<noteq> b
        \<and> linkType s = Directed"
  then have pre: "interactionMode s = LinkMode" "linkingSourceId s = None" "a \<noteq> b"
    and kind: "linkType s = Directed" by simp_all
  let ?s1 = "create_link a b s"
  have pre1: "interactionMode ?s1 = LinkMode" "linkingSourceId ?s1 = None"
    and kind1: "linkType ?s1 = Directed"
    using create_link_links(2-4) [OF pre] kind by simp_all
  have "link_exists (links ?s1) (linkType ?s1) a b"
    using create_link_again [OF pre] kind kind1 by simp
  then show same: "links (create_link a b ?s1) = links ?s1"
    using create_link_links(1) [OF pre1 pre(3)] by simp
  have first: "links ?s1 =
      (if link_exists (links s) Directed a b then links s
       else links s @ [\<lparr>source = a, target = b, type_link = Some Directed\<rparr>])"
    using create_link_links(1) [OF pre] kind by simp
  show "length (filter (from_to a b) (links (create_link a b ?s1)))
          = max 1 (length (filter (from_to a b) (links s)))"
  proof (cases "link_exists (links s) Directed a b")
    case True
    then have "length (filter (from_to a b) (links s)) \<noteq> 0"
      using count_from_to [of a b "links s"] by simp
    then have "1 \<le> length (filter (from_to a b) (links s))"
      by arith
    then show ?thesis using True same first by (simp add: max_def)
  next
    case False
    then have "length (filter (from_to a b) (links s)) = 0"
      using count_from_to [of a b "links s"] by simp
    then show ?thesis using False same first by (simp add: from_to_def)
  qed
  show "links (create_link a b ?s1) = [\<lparr>source = a, target = b, type_link = Some Directed\<rparr>]"
    if "links s = []"
    using that same first by (simp add: link_exists_def)
next
  assume h: "interactionMode s = LinkMode \<and> linkingSourceId s = None \<and> a \<noteq> b
        \<and> linkType s = Covariance"
  then have pre: "interactionMode s = LinkMode" "linkingSourceId s = None" "a \<noteq> b"
    and kind: "linkType s = Covariance" by simp_all
  let ?s1 = "create_link a b s"
  have pre1: "interactionMode ?s1 = LinkMode" "linkingSourceId ?s1 = None"
    and kind1: "linkType ?s1 = Covariance"
    using create_link_links(2-4) [OF pre] kind by simp_all
  have ba: "b \<noteq> a" using pre(3) by simp
  have "link_exists (links ?s1) (linkType ?s1) b a"
    using create_link_reversed [OF pre kind] kind1 by simp
  then show same: "links (create_link b a ?s1) = links ?s1"
    using create_link_links(1) [OF pre1 ba] by simp
  have first: "links ?s1 =
      (if link_exists (links s) Covariance a b then links s
       else links s @ [\<lparr>source = a, target = b, type_link = Some Covariance\<rparr>])"
    using create_link_links(1) [OF pre] kind by simp
  show "length (filter (joins a b) (links (create_link b a ?s1)))
          = max 1 (length (filter (joins a b) (links s)))"
  proof (cases "link_exists (links s) Covariance a b")
    case True
    then have "length (filter (joins a b) (links s)) \<noteq> 0"
      using count_joins [of a b "links s"] by simp
    then have "1 \<le> length (filter (joins a b) (links s))"
      by arith
    then show ?thesis using True same first by (simp add: max_def)
  next
    case False
    then have "length (filter (joins a b) (links s)) = 0"
      using count_joins [of a b "links s"] by simp
    then show ?thesis using False same first by (simp add: joins_def)
  qed
  show "links (create_link b a ?s1) = [\<lparr>source = a, target = b, type_link = Some Covariance\<rparr>]"
    if "links s = []"
    using that same first by (simp add: link_exists_def)
qed


lemmas demo_simps =
  default_editor_def mount_def mermaidEffect_def step_def default_nodes_def default_links_def
  handleNodeClick_def create_link_def setLinkMode_def setMoveMode_def link_exists_def
  equivalent_link_def from_to_def joins_def js_def

theorem link_creation_rejects_equivalent_witness:
  "interactionMode (run [LinkModeClicked, NodeClicked (js ''1'')] default_editor) = LinkMode
   \<and> linkingSourceId (run [LinkModeClicked, NodeClicked (js ''1'')] default_editor)
        = Some (js ''1'')
   \<and> js ''1'' \<noteq> js ''2''
   \<and> links (handleNodeClick (js ''2'')
               (run [LinkModeClicked, NodeClicked (js ''1'')] default_editor))
        = default_links @ [\<lparr>source = js ''1'', target = js ''2'', type_link = Some Directed\<rparr>]
   \<and> interactionMode (run [LinkModeClicked] default_editor) = LinkMode
   \<and> linkingSourceId (run [LinkModeClicked] default_editor) = None
   \<and> linkType (run [LinkModeClicked] default_editor) = Directed
   \<and> length (filter (from_to (js ''1'') (js ''2''))
        (links (create_link (js ''1'') (js ''2'')
                 (create_link (js ''1'') (js ''2'') (run [LinkModeClicked] default_editor))))) = 1
   \<and> linkType (run [LinkModeClicked, LinkTypeClicked Covariance] default_editor) = Covariance
   \<and> interactionMode (run [LinkModeClicked, LinkTypeClicked Covariance] default_editor) = LinkMode
   \<and> linkingSourceId (run [LinkModeClicked, LinkTypeClicked Covariance] default_editor) = None
   \<and> length (filter (joins (js ''1'') (js ''2''))
        (links (create_link (js ''2'') (js ''1'')
                 (create_link (js ''1'') (js ''2'')
                   (run [LinkModeClicked, LinkTypeClicked Covariance] default_editor))))) = 1"
  using
    link_creation_rejects_equivalent
      [where s = "run [LinkModeClicked, NodeClicked (js ''1'')] default_editor"
         and p = "js ''1''" and c = "js ''2''" and a = "js ''1''" and b = "js ''2''"]
    link_creation_rejects_equivalent
      [where s = "run [LinkModeClicked] default_editor"
         and p = "js ''1''" and c = "js ''2''" and a = "js ''1''" and b = "js ''2''"]
    link_creation_rejects_equivalent
      [where s = "run [LinkModeClicked, LinkTypeClicked Covariance] default_editor"
         and p = "js ''1''" and c = "js ''2''" and a = "js ''1''" and b = "js ''2''"]
  by (simp add: demo_simps)

section \<open>Undo and clear\<close>

lemma slice_drops_last: "take (length xs - Suc 0) xs = butlast xs"
  by (simp add: butlast_conv_take)

text \<open>
  C4. Undo last link on a non-empty link list removes exactly the most recently appended
  link and leaves the earlier links as they are, in order; on an empty link list it
  changes nothing, and the list stays empty.
\<close>

theorem removeLastLink_removes_last:
  "(links s = earlier @ [l] \<longrightarrow>
      links (removeLastLink s) = earlier \<and> removeLastLink s = s\<lparr>links := earlier\<rparr>)
   \<and> (links s \<noteq> [] \<longrightarrow> links (removeLastLink s) @ [last (links s)] = links s)
   \<and> (links s = [] \<longrightarrow> removeLastLink s = s \<and> links (removeLastLink s) = [])"
proof (intro conjI impI)
  assume "links s = earlier @ [l]"
  then show "links (removeLastLink s) = earlier" "removeLastLink s = s\<lparr>links := earlier\<rparr>"
    by (simp_all add: removeLastLink_def)
next
  assume "links s \<noteq> []"
  then show "links (removeLastLink s) @ [last (links s)] = links s"
    by (simp add: removeLastLink_def slice_drops_last)
next
  assume "links s = []"
  then show "removeLastLink s = s" "links (removeLastLink s) = []"
    by (simp_all add: removeLastLink_def)
qed

theorem removeLastLink_removes_last_witness:
  "links default_editor = [hd default_links] @ [last default_links]
   \<and> links (removeLastLink default_editor) = [hd default_links]
   \<and> links (removeLastLink default_editor) @ [last (links default_editor)] = default_links
   \<and> links (mount default_nodes [] False) = []
   \<and> removeLastLink (mount default_nodes [] False) = mount default_nodes [] False"
  using
    removeLastLink_removes_last
      [where s = default_editor and earlier = "[hd default_links]" and l = "last default_links"]
    removeLastLink_removes_last
      [where s = "mount default_nodes [] False" and earlier = "[]" and l = "last default_links"]
  by (simp add: default_editor_def mount_def mermaidEffect_def default_links_def)

text \<open>
  C6. Clear all links empties the link list if and only if the confirmation is accepted:
  accepted, the list becomes empty and nothing else changes; not accepted, the whole
  editor state is unchanged. (The button is enabled on a non-empty list only.)
\<close>

theorem clearAllLinks_iff_confirmed:
  "(confirmed \<longrightarrow> clearAllLinks confirmed s = s\<lparr>links := []\<rparr>)
   \<and> (\<not> confirmed \<longrightarrow> clearAllLinks confirmed s = s)
   \<and> (links s \<noteq> [] \<longrightarrow> (links (clearAllLinks confirmed s) = [] \<longleftrightarrow> confirmed))
   \<and> (viewMode s = Canvas \<and> links s \<noteq> [] \<longrightarrow>
        (links (handle (ClearClicked confirmed) s) = [] \<longleftrightarrow> confirmed)
        \<and> (\<not> confirmed \<longrightarrow> handle (ClearClicked confirmed) s = s))"
  by (simp add: clearAllLinks_def)

theorem clearAllLinks_iff_confirmed_witness:
  "clearAllLinks True default_editor = default_editor\<lparr>links := []\<rparr>
   \<and> clearAllLinks False default_editor = default_editor
   \<and> links default_editor \<noteq> [] \<and> viewMode default_editor = Canvas
   \<and> links (handle (ClearClicked True) default_editor) = []
   \<and> links (handle (ClearClicked False) default_editor) \<noteq> []"
  using
    clearAllLinks_iff_confirmed [where s = default_editor and confirmed = True]
    clearAllLinks_iff_confirmed [where s = default_editor and confirmed = False]
  by (simp add: default_editor_def mount_def mermaidEffect_def default_links_def)


section \<open>Frame conditions\<close>

text \<open>
  C10. Every link-store operation (a click on a node, so also the two clicks that create
  a link; remove last link; clear all links) leaves the node list exactly as it was, and
  adding a node leaves the link list exactly as it was.
\<close>

theorem link_operations_keep_nodes:
  "nodes (handleNodeClick c s) = nodes s
   \<and> nodes (create_link a b s) = nodes s
   \<and> nodes (removeLastLink s) = nodes s
   \<and> nodes (clearAllLinks confirmed s) = nodes s
   \<and> nodes (step (NodeClicked c) s) = nodes s
   \<and> nodes (step UndoClicked s) = nodes s
   \<and> nodes (step (ClearClicked confirmed) s) = nodes s
   \<and> links (addNode now rx ry s) = links s
   \<and> links (step (AddClicked now rx ry) s) = links s"
proof -
  have click: "nodes (handleNodeClick i t) = nodes t" for i t
    by (simp add: handleNodeClick_def Let_def split: option.split)
  have undo: "nodes (removeLastLink t) = nodes t" for t
    by (simp add: removeLastLink_def)
  have clear: "nodes (clearAllLinks confirmed t) = nodes t" for t
    by (simp add: clearAllLinks_def)
  have add: "links (addNode now rx ry t) = links t" for t
    by (simp add: addNode_def Let_def)
  show ?thesis
    by (simp add: click undo clear add create_link_def step_def mermaidEffect_def)
qed

theorem link_operations_keep_nodes_witness:
  "nodes (create_link (js ''1'') (js ''2'') (run [LinkModeClicked] default_editor)) = default_nodes
   \<and> links (create_link (js ''1'') (js ''2'') (run [LinkModeClicked] default_editor))
        \<noteq> default_links
   \<and> nodes (removeLastLink default_editor) = default_nodes
   \<and> links (removeLastLink default_editor) \<noteq> default_links
   \<and> nodes (clearAllLinks True default_editor) = default_nodes
   \<and> links (addNode 42 0 0 (default_editor\<lparr>newNodeLabel := js ''Trust''\<rparr>)) = default_links
   \<and> nodes (addNode 42 0 0 (default_editor\<lparr>newNodeLabel := js ''Trust''\<rparr>)) \<noteq> default_nodes"
  using
    link_operations_keep_nodes
      [where s = "run [LinkModeClicked] default_editor" and a = "js ''1''" and b = "js ''2''"]
    link_operations_keep_nodes [where s = default_editor and confirmed = True]
    link_operations_keep_nodes
      [where s = "default_editor\<lparr>newNodeLabel := js ''Trust''\<rparr>"
         and now = 42 and rx = 0 and ry = 0]
  by (simp add: demo_simps removeLastLink_def clearAllLinks_def addNode_def trim_def
        isWhiteSpace_def)


section \<open>The interaction state machine\<close>

lemma pending_after_handle:
  "linkingSourceId (handle e s) = linkingSourceId s
   \<or> (interactionMode s = LinkMode \<and> interactionMode (handle e s) = LinkMode)
   \<or> linkingSourceId (handle e s) = None"
  by (cases e)
     (simp_all add: handleNodeClick_def addNode_def handleMouseMove_def removeLastLink_def
        clearAllLinks_def setMoveMode_def setLinkMode_def onDragEnd_def Let_def
        split: option.split)

lemma mode_after_handle:
  "interactionMode (handle e s) = interactionMode s
   \<or> linkingSourceId (handle e s) = None"
  by (cases e)
     (simp_all add: handleNodeClick_def addNode_def handleMouseMove_def removeLastLink_def
        clearAllLinks_def setMoveMode_def setLinkMode_def onDragEnd_def Let_def
        split: option.split)

lemma pending_step [simp]: "linkingSourceId (step e s) = linkingSourceId (handle e s)"
  by (simp add: step_def mermaidEffect_def)

lemma mode_step [simp]: "interactionMode (step e s) = interactionMode (handle e s)"
  by (simp add: step_def mermaidEffect_def)

lemma pending_implies_link_step:
  assumes "linkingSourceId s \<noteq> None \<longrightarrow> interactionMode s = LinkMode"
  shows "linkingSourceId (step e s) \<noteq> None \<longrightarrow> interactionMode (step e s) = LinkMode"
  using assms pending_after_handle [of e s] mode_after_handle [of e s]
  by auto

lemma reachable_pending_implies_link:
  "reachable s \<Longrightarrow> linkingSourceId s \<noteq> None \<longrightarrow> interactionMode s = LinkMode"
proof (induction rule: reachable.induct)
  case (reachable_mount ns ls dark)
  show ?case by (simp add: mount_def mermaidEffect_def)
next
  case (reachable_step s e)
  show ?case using reachable_step.IH by (rule pending_implies_link_step)
qed

lemma reachable_run: "reachable s \<Longrightarrow> reachable (run es s)"
  by (induction es arbitrary: s) (simp_all add: reachable_step)

text \<open>
  C9. In every reachable state of the editor, a pending source node id implies that the
  interaction mode is link: switching to either mode clears the pending source, and no
  event in move mode sets it (after the event it is absent, or what it was).
\<close>

theorem pending_source_only_in_link_mode:
  "(reachable s \<longrightarrow> (linkingSourceId s \<noteq> None \<longrightarrow> interactionMode s = LinkMode))
   \<and> linkingSourceId (setMoveMode s) = None \<and> interactionMode (setMoveMode s) = MoveMode
   \<and> linkingSourceId (setLinkMode s) = None \<and> interactionMode (setLinkMode s) = LinkMode
   \<and> (interactionMode s = MoveMode \<longrightarrow>
        linkingSourceId (step e s) = None \<or> linkingSourceId (step e s) = linkingSourceId s)
   \<and> (reachable s \<and> interactionMode s = MoveMode \<longrightarrow> linkingSourceId (step e s) = None)"
proof (intro conjI impI)
  show "interactionMode s = LinkMode" if "reachable s" "linkingSourceId s \<noteq> None"
    using reachable_pending_implies_link [OF that(1)] that(2) by simp
  show move: "linkingSourceId (step e s) = None \<or> linkingSourceId (step e s) = linkingSourceId s"
    if "interactionMode s = MoveMode"
    using pending_after_handle [of e s] that by auto
  show "linkingSourceId (step e s) = None" if "reachable s \<and> interactionMode s = MoveMode"
  proof -
    have "linkingSourceId s = None"
      using reachable_pending_implies_link [of s] that by auto
    then show ?thesis using move that by auto
  qed
qed (simp_all add: setMoveMode_def setLinkMode_def)

theorem pending_source_only_in_link_mode_witness:
  "reachable (run [LinkModeClicked, NodeClicked (js ''1'')] default_editor)
   \<and> linkingSourceId (run [LinkModeClicked, NodeClicked (js ''1'')] default_editor)
        = Some (js ''1'')
   \<and> interactionMode (run [LinkModeClicked, NodeClicked (js ''1'')] default_editor) = LinkMode
   \<and> reachable default_editor \<and> interactionMode default_editor = MoveMode
   \<and> linkingSourceId (step (NodeClicked (js ''1'')) default_editor) = None"
proof -
  have r: "reachable default_editor"
    unfolding default_editor_def by (rule reachable_mount)
  have r2: "reachable (run [LinkModeClicked, NodeClicked (js ''1'')] default_editor)"
    using r by (rule reachable_run)
  have m: "interactionMode default_editor = MoveMode"
    by (simp add: default_editor_def mount_def mermaidEffect_def)
  have p: "linkingSourceId (run [LinkModeClicked, NodeClicked (js ''1'')] default_editor)
        = Some (js ''1'')"
    by (simp add: demo_simps)
  show ?thesis
    using r r2 m p
      pending_source_only_in_link_mode
        [where s = "run [LinkModeClicked, NodeClicked (js ''1'')] default_editor"]
      pending_source_only_in_link_mode
        [where s = default_editor and e = "NodeClicked (js ''1'')"]
    by simp
qed

section \<open>The diagram-language generator\<close>

lemma foldl_append_lines: "foldl (\<lambda>acc x. acc @ f x) init xs = init @ concat (map f xs)"
  by (induction xs arbitrary: init) simp_all

lemma generateSyntax_lines:
  "generateSyntax ns ls dark =
     generateSyntax [] [] dark @ concat (map node_line ns) @ concat (map link_line ls)"
  by (simp add: generateSyntax_def Let_def foldl_append_lines)

lemma mermaidEffect_text:
  "mermaidSyntax (mermaidEffect s) = generateSyntax (nodes s) (links s) (isDarkMode s)"
  by (simp add: mermaidEffect_def)

lemma mermaidEffect_graph:
  "nodes (mermaidEffect s) = nodes s" "links (mermaidEffect s) = links s"
  "isDarkMode (mermaidEffect s) = isDarkMode s"
  by (simp_all add: mermaidEffect_def)

lemma reachable_text_in_sync:
  "reachable s \<Longrightarrow> mermaidSyntax s = generateSyntax (nodes s) (links s) (isDarkMode s)"
proof (induction rule: reachable.induct)
  case (reachable_mount ns ls dark)
  show ?case unfolding mount_def by (simp only: mermaidEffect_text mermaidEffect_graph)
next
  case (reachable_step s e)
  show ?case unfolding step_def by (simp only: mermaidEffect_text mermaidEffect_graph)
qed

text \<open>
  C2. The generator is deterministic: two runs on the same ordered node list, the same
  ordered link list and the same theme flag give the same text, code unit for code unit.
  This holds for the function, for the effect run in two editor states that agree on the
  three inputs and differ anywhere else, and for the text shown in any two reachable
  states that agree on them.
\<close>

theorem generator_deterministic:
  "(ns = ns' \<and> ls = ls' \<and> dark = dark' \<longrightarrow>
      generateSyntax ns ls dark = generateSyntax ns' ls' dark')
   \<and> (nodes s = nodes s' \<and> links s = links s' \<and> isDarkMode s = isDarkMode s' \<longrightarrow>
        mermaidSyntax (mermaidEffect s) = mermaidSyntax (mermaidEffect s'))
   \<and> (reachable s \<and> reachable s' \<and>
       nodes s = nodes s' \<and> links s = links s' \<and> isDarkMode s = isDarkMode s' \<longrightarrow>
        mermaidSyntax s = mermaidSyntax s')"
proof (intro conjI impI)
  show "generateSyntax ns ls dark = generateSyntax ns' ls' dark'"
    if "ns = ns' \<and> ls = ls' \<and> dark = dark'"
    using that by simp
  show "mermaidSyntax (mermaidEffect s) = mermaidSyntax (mermaidEffect s')"
    if "nodes s = nodes s' \<and> links s = links s' \<and> isDarkMode s = isDarkMode s'"
    using that by (simp add: mermaidEffect_text)
  show "mermaidSyntax s = mermaidSyntax s'"
    if "reachable s \<and> reachable s' \<and>
        nodes s = nodes s' \<and> links s = links s' \<and> isDarkMode s = isDarkMode s'"
    using that reachable_text_in_sync [of s] reachable_text_in_sync [of s'] by simp
qed

theorem generator_deterministic_witness:
  "reachable default_editor
   \<and> reachable (run [LinkModeClicked, NodeClicked (js ''1'')] default_editor)
   \<and> run [LinkModeClicked, NodeClicked (js ''1'')] default_editor \<noteq> default_editor
   \<and> nodes (run [LinkModeClicked, NodeClicked (js ''1'')] default_editor)
        = nodes default_editor
   \<and> links (run [LinkModeClicked, NodeClicked (js ''1'')] default_editor)
        = links default_editor
   \<and> isDarkMode (run [LinkModeClicked, NodeClicked (js ''1'')] default_editor)
        = isDarkMode default_editor
   \<and> mermaidSyntax (run [LinkModeClicked, NodeClicked (js ''1'')] default_editor)
        = mermaidSyntax default_editor"
proof -
  let ?s = "run [LinkModeClicked, NodeClicked (js ''1'')] default_editor"
  have r: "reachable default_editor"
    unfolding default_editor_def by (rule reachable_mount)
  have r2: "reachable ?s"
    using r by (rule reachable_run)
  have ne: "interactionMode ?s \<noteq> interactionMode default_editor"
    by (simp add: demo_simps)
  have d: "?s \<noteq> default_editor"
  proof
    assume same: "?s = default_editor"
    have "interactionMode ?s = interactionMode default_editor"
      by (simp only: same)
    with ne show False ..
  qed
  have g: "nodes ?s = nodes default_editor" "links ?s = links default_editor"
    "isDarkMode ?s = isDarkMode default_editor"
    by (simp_all add: demo_simps)
  show ?thesis
    using r r2 d g generator_deterministic [where s = ?s and s' = default_editor]
    by simp
qed

lemma safeLabel_nth:
  "i < length lbl \<Longrightarrow>
     safeLabel lbl ! i = (if isWhiteSpace (lbl ! i) then underscore else lbl ! i)"
  by (simp add: safeLabel_def)

lemma underscore_not_space: "\<not> isWhiteSpace underscore"
  by (simp add: isWhiteSpace_def underscore_def)

lemma safeLabel_no_space: "c \<in> set (safeLabel lbl) \<Longrightarrow> \<not> isWhiteSpace c"
  by (auto simp: safeLabel_def underscore_not_space)

text \<open>
  C3. For every node list, link list and theme flag the generated text is the heading,
  the two style classes of the theme, one declaration per node in node-list order and
  one declaration per link in link-list order. A node declaration is the id, the label
  with every white-space character replaced by \<open>_\<close> inside \<open>((...))\<close> for a latent node
  and inside \<open>[...]\<close> for an observed node, and the style class of the node's kind (whose
  definition is the theme's). A link declaration has the arrow \<open>-->\<close> for a directed link
  and \<open><-->\<close> for a covariance link.
\<close>

theorem generated_text_declarations:
  "generateSyntax ns ls dark =
     js ''graph LR'' @ [newline]
     @ (if dark then
          js ''classDef latent fill:#1e293b,stroke:#e2e8f0,stroke-width:2px,rx:50,ry:50,color:#fff;'' @ [newline]
          @ js ''classDef observed fill:#0f172a,stroke:#06b6d4,stroke-width:1px,rx:0,ry:0,color:#fff;'' @ [newline]
        else
          js ''classDef latent fill:#fff,stroke:#333,stroke-width:2px,rx:50,ry:50;'' @ [newline]
          @ js ''classDef observed fill:#f0f9ff,stroke:#0891b2,stroke-width:1px,rx:0,ry:0;'' @ [newline])
     @ concat (map node_line ns) @ concat (map link_line ls)
   \<and> node_line n =
       id_node n
       @ (case type_node n of
            Latent \<Rightarrow> js ''(('' @ safeLabel (label n) @ js ''))''
          | Observed \<Rightarrow> js ''['' @ safeLabel (label n) @ js '']'')
       @ js '':::''
       @ (case type_node n of Latent \<Rightarrow> js ''latent'' | Observed \<Rightarrow> js ''observed'')
       @ [newline]
   \<and> length (safeLabel lbl) = length lbl
   \<and> (\<forall>i < length lbl.
         safeLabel lbl ! i = (if isWhiteSpace (lbl ! i) then underscore else lbl ! i))
   \<and> (\<forall>c \<in> set (safeLabel lbl). \<not> isWhiteSpace c)
   \<and> link_line l =
       source l @ js '' ''
       @ (case type_link l of
            Some Covariance \<Rightarrow> js ''<-->''
          | Some Directed \<Rightarrow> js ''-->''
          | None \<Rightarrow> js ''-->'')
       @ js '' '' @ target l @ [newline]"
proof (intro conjI)
  show "generateSyntax ns ls dark =
     js ''graph LR'' @ [newline]
     @ (if dark then
          js ''classDef latent fill:#1e293b,stroke:#e2e8f0,stroke-width:2px,rx:50,ry:50,color:#fff;'' @ [newline]
          @ js ''classDef observed fill:#0f172a,stroke:#06b6d4,stroke-width:1px,rx:0,ry:0,color:#fff;'' @ [newline]
        else
          js ''classDef latent fill:#fff,stroke:#333,stroke-width:2px,rx:50,ry:50;'' @ [newline]
          @ js ''classDef observed fill:#f0f9ff,stroke:#0891b2,stroke-width:1px,rx:0,ry:0;'' @ [newline])
     @ concat (map node_line ns) @ concat (map link_line ls)"
    by (subst generateSyntax_lines) (simp add: generateSyntax_def)
  show "node_line n =
       id_node n
       @ (case type_node n of
            Latent \<Rightarrow> js ''(('' @ safeLabel (label n) @ js ''))''
          | Observed \<Rightarrow> js ''['' @ safeLabel (label n) @ js '']'')
       @ js '':::''
       @ (case type_node n of Latent \<Rightarrow> js ''latent'' | Observed \<Rightarrow> js ''observed'')
       @ [newline]"
    by (cases "type_node n") (simp_all add: node_line_def shape_def)
  show "length (safeLabel lbl) = length lbl"
    by (simp add: safeLabel_def)
  show "\<forall>i < length lbl.
         safeLabel lbl ! i = (if isWhiteSpace (lbl ! i) then underscore else lbl ! i)"
    using safeLabel_nth by blast
  show "\<forall>c \<in> set (safeLabel lbl). \<not> isWhiteSpace c"
    using safeLabel_no_space by blast
  show "link_line l =
       source l @ js '' ''
       @ (case type_link l of
            Some Covariance \<Rightarrow> js ''<-->''
          | Some Directed \<Rightarrow> js ''-->''
          | None \<Rightarrow> js ''-->'')
       @ js '' '' @ target l @ [newline]"
    by (simp add: link_line_def arrow_def split: option.split link_type.split)
qed

theorem generated_text_declarations_witness:
  "generateSyntax
     [\<lparr>id_node = js ''n7'', label = js ''Job  fit'', type_node = Observed, x_node = 0, y_node = 0\<rparr>,
      \<lparr>id_node = js ''1'', label = js ''Leadership'', type_node = Latent, x_node = 50, y_node = 50\<rparr>]
     [\<lparr>source = js ''1'', target = js ''n7'', type_link = Some Directed\<rparr>,
      \<lparr>source = js ''n7'', target = js ''1'', type_link = Some Covariance\<rparr>]
     False
   = js ''graph LR'' @ [newline]
     @ js ''classDef latent fill:#fff,stroke:#333,stroke-width:2px,rx:50,ry:50;'' @ [newline]
     @ js ''classDef observed fill:#f0f9ff,stroke:#0891b2,stroke-width:1px,rx:0,ry:0;'' @ [newline]
     @ js ''n7[Job__fit]:::observed'' @ [newline]
     @ js ''1((Leadership)):::latent'' @ [newline]
     @ js ''1 --> n7'' @ [newline]
     @ js ''n7 <--> 1'' @ [newline]
   \<and> (3::nat) < length (js ''Job  fit'') \<and> isWhiteSpace (js ''Job  fit'' ! 3)
   \<and> safeLabel (js ''Job  fit'') ! 3 = underscore
   \<and> underscore \<in> set (safeLabel (js ''Job  fit''))"
proof -
  have lbl: "safeLabel (js ''Job  fit'') = js ''Job__fit''"
    "safeLabel (js ''Leadership'') = js ''Leadership''"
    by (simp_all add: safeLabel_def js_def isWhiteSpace_def underscore_def)
  have lits: "js ''n7'' @ js ''['' @ js ''Job__fit'' @ js '']'' @ js '':::'' @ js ''observed''
                = js ''n7[Job__fit]:::observed''"
    "js ''1'' @ js ''(('' @ js ''Leadership'' @ js ''))'' @ js '':::'' @ js ''latent''
                = js ''1((Leadership)):::latent''"
    "js ''1'' @ js '' '' @ js ''-->'' @ js '' '' @ js ''n7'' = js ''1 --> n7''"
    "js ''n7'' @ js '' '' @ js ''<-->'' @ js '' '' @ js ''1'' = js ''n7 <--> 1''"
    by (simp_all add: js_def)
  have sp: "(3::nat) < length (js ''Job  fit'')" "isWhiteSpace (js ''Job  fit'' ! 3)"
    "safeLabel (js ''Job  fit'') ! 3 = underscore"
    "underscore \<in> set (safeLabel (js ''Job  fit''))"
    by (simp_all add: lbl) (simp_all add: js_def isWhiteSpace_def underscore_def)
  show ?thesis
    using
      generated_text_declarations
        [where ns = "[\<lparr>id_node = js ''n7'', label = js ''Job  fit'', type_node = Observed, x_node = 0, y_node = 0\<rparr>,
                      \<lparr>id_node = js ''1'', label = js ''Leadership'', type_node = Latent, x_node = 50, y_node = 50\<rparr>]"
           and ls = "[\<lparr>source = js ''1'', target = js ''n7'', type_link = Some Directed\<rparr>,
                      \<lparr>source = js ''n7'', target = js ''1'', type_link = Some Covariance\<rparr>]"
           and dark = False and lbl = "js ''Job  fit''"]
      sp lits
    by (simp add: node_line_def shape_def link_line_def arrow_def lbl)
qed

section \<open>The link layer\<close>

lemma find_by_id_None: "find (\<lambda>n. id_node n = i) ns = None \<longleftrightarrow> i \<notin> id_node ` set ns"
  by (auto simp: find_None_iff)

lemma render_link_None:
  "render_link ns dark l = None \<longleftrightarrow>
     source l \<notin> id_node ` set ns \<or> target l \<notin> id_node ` set ns"
proof -
  have "render_link ns dark l = None \<longleftrightarrow>
          find (\<lambda>n. id_node n = source l) ns = None \<or> find (\<lambda>n. id_node n = target l) ns = None"
    by (simp add: render_link_def Let_def split: option.split)
  then show ?thesis by (simp only: find_by_id_None)
qed

lemma render_link_Some:
  assumes "find (\<lambda>n. id_node n = source l) ns = Some sn"
    and "find (\<lambda>n. id_node n = target l) ns = Some tn"
  shows "\<exists>ln. render_link ns dark l = Some ln
           \<and> x1_line ln = x_node sn + (if type_node sn = Latent then 50 else 60)
           \<and> y1_line ln = y_node sn + 25
           \<and> x2_line ln = x_node tn + (if type_node tn = Latent then 50 else 60)
           \<and> y2_line ln = y_node tn + 25"
  using assms by (simp add: render_link_def)

text \<open>
  C5. Rendering the link layer yields a result for every graph: one entry per link, in
  order. A link whose source or target id matches no node of the node list is skipped
  (its entry is the null that is not drawn), and every link whose two endpoints exist is
  drawn, as a line between the anchor points of the first nodes with those ids. With no
  nodes left, no link is drawn.
\<close>

theorem dangling_links_are_skipped:
  "length (renderLinks ns ls dark) = length ls
   \<and> (\<forall>i < length ls.
         renderLinks ns ls dark ! i = None \<longleftrightarrow>
           source (ls ! i) \<notin> id_node ` set ns \<or> target (ls ! i) \<notin> id_node ` set ns)
   \<and> (\<forall>i < length ls. \<forall>sn tn.
         find (\<lambda>n. id_node n = source (ls ! i)) ns = Some sn \<and>
         find (\<lambda>n. id_node n = target (ls ! i)) ns = Some tn \<longrightarrow>
           (\<exists>ln. renderLinks ns ls dark ! i = Some ln
              \<and> x1_line ln = x_node sn + (if type_node sn = Latent then 50 else 60)
              \<and> y1_line ln = y_node sn + 25
              \<and> x2_line ln = x_node tn + (if type_node tn = Latent then 50 else 60)
              \<and> y2_line ln = y_node tn + 25))
   \<and> renderLinks [] ls dark = replicate (length ls) None"
proof (intro conjI allI impI)
  show "length (renderLinks ns ls dark) = length ls"
    by (simp add: renderLinks_def)
  show "renderLinks ns ls dark ! i = None \<longleftrightarrow>
           source (ls ! i) \<notin> id_node ` set ns \<or> target (ls ! i) \<notin> id_node ` set ns"
    if "i < length ls" for i
    using that by (simp add: renderLinks_def render_link_None)
  show "\<exists>ln. renderLinks ns ls dark ! i = Some ln
              \<and> x1_line ln = x_node sn + (if type_node sn = Latent then 50 else 60)
              \<and> y1_line ln = y_node sn + 25
              \<and> x2_line ln = x_node tn + (if type_node tn = Latent then 50 else 60)
              \<and> y2_line ln = y_node tn + 25"
    if "i < length ls"
      and "find (\<lambda>n. id_node n = source (ls ! i)) ns = Some sn \<and>
           find (\<lambda>n. id_node n = target (ls ! i)) ns = Some tn" for i sn tn
  proof -
    have "renderLinks ns ls dark ! i = render_link ns dark (ls ! i)"
      using that(1) by (simp add: renderLinks_def)
    then show ?thesis
      using render_link_Some [of "ls ! i" ns sn tn dark] that(2) by simp
  qed
  have "render_link [] dark = (\<lambda>l. None)"
    by (rule ext) (simp add: render_link_def)
  then show "renderLinks [] ls dark = replicate (length ls) None"
    by (simp add: renderLinks_def map_replicate_const)
qed

theorem dangling_links_are_skipped_witness:
  "(0::nat) < length default_links \<and> (1::nat) < length default_links
   \<and> source (default_links ! 0) \<notin> id_node ` set (tl default_nodes)
   \<and> renderLinks (tl default_nodes) default_links False ! 0 = None
   \<and> find (\<lambda>n. id_node n = source (default_links ! 1)) (tl default_nodes)
        = Some (default_nodes ! 1)
   \<and> find (\<lambda>n. id_node n = target (default_links ! 1)) (tl default_nodes)
        = Some (default_nodes ! 2)
   \<and> (\<exists>ln. renderLinks (tl default_nodes) default_links False ! 1 = Some ln
         \<and> x1_line ln = 300 \<and> y1_line ln = 75 \<and> x2_line ln = 200 \<and> y2_line ln = 225)"
proof -
  have len: "(0::nat) < length default_links" "(1::nat) < length default_links"
    by (simp_all add: default_links_def)
  have dangling: "source (default_links ! 0) \<notin> id_node ` set (tl default_nodes)"
    by (simp add: default_links_def default_nodes_def js_def)
  have found:
    "find (\<lambda>n. id_node n = source (default_links ! 1)) (tl default_nodes)
       = Some (default_nodes ! 1)
     \<and> find (\<lambda>n. id_node n = target (default_links ! 1)) (tl default_nodes)
       = Some (default_nodes ! 2)"
    by (simp add: default_links_def default_nodes_def js_def)
  have anchors: "x_node (default_nodes ! Suc 0) = 250" "y_node (default_nodes ! Suc 0) = 50"
    "x_node (default_nodes ! 2) = 150" "y_node (default_nodes ! 2) = 200"
    "type_node (default_nodes ! Suc 0) = Latent" "type_node (default_nodes ! 2) = Latent"
    by (simp_all add: default_nodes_def)
  note inst = dangling_links_are_skipped
    [where ns = "tl default_nodes" and ls = default_links and dark = False]
  from inst have skipped: "renderLinks (tl default_nodes) default_links False ! 0 = None"
    using len(1) dangling by blast
  from inst have
    "\<exists>ln. renderLinks (tl default_nodes) default_links False ! 1 = Some ln
       \<and> x1_line ln = x_node (default_nodes ! 1)
                        + (if type_node (default_nodes ! 1) = Latent then 50 else 60)
       \<and> y1_line ln = y_node (default_nodes ! 1) + 25
       \<and> x2_line ln = x_node (default_nodes ! 2)
                        + (if type_node (default_nodes ! 2) = Latent then 50 else 60)
       \<and> y2_line ln = y_node (default_nodes ! 2) + 25"
    using len(2) found by blast
  then have drawn:
    "\<exists>ln. renderLinks (tl default_nodes) default_links False ! 1 = Some ln
         \<and> x1_line ln = 300 \<and> y1_line ln = 75 \<and> x2_line ln = 200 \<and> y2_line ln = 225"
    by (simp add: anchors)
  show ?thesis
    using len dangling skipped found drawn by blast
qed


section \<open>The tool suggestion\<close>

lemma starts_with_iff: "starts_with s k \<longleftrightarrow> (\<exists>after. s = k @ after)"
  by (induction s k rule: starts_with.induct) auto

lemma includes_js_iff: "includes_js s k \<longleftrightarrow> occurs_in k s"
proof (induction s)
  case Nil
  show ?case by (simp add: occurs_in_def)
next
  case (Cons c cs)
  have "occurs_in k (c # cs) \<longleftrightarrow> (\<exists>after. c # cs = k @ after) \<or> occurs_in k cs"
  proof
    assume "occurs_in k (c # cs)"
    then obtain before after where eq: "c # cs = before @ k @ after"
      unfolding occurs_in_def by blast
    show "(\<exists>after. c # cs = k @ after) \<or> occurs_in k cs"
    proof (cases before)
      case Nil
      with eq show ?thesis by auto
    next
      case (Cons b bs)
      with eq have "cs = bs @ k @ after" by simp
      then show ?thesis unfolding occurs_in_def by blast
    qed
  next
    assume "(\<exists>after. c # cs = k @ after) \<or> occurs_in k cs"
    then show "occurs_in k (c # cs)"
    proof
      assume "\<exists>after. c # cs = k @ after"
      then obtain after where "c # cs = [] @ k @ after" by auto
      then show ?thesis unfolding occurs_in_def by blast
    next
      assume "occurs_in k cs"
      then obtain before after where "cs = before @ k @ after"
        unfolding occurs_in_def by blast
      then have "c # cs = (c # before) @ k @ after" by simp
      then show ?thesis unfolding occurs_in_def by blast
    qed
  qed
  then show ?case using Cons.IH by (simp add: starts_with_iff)
qed

lemma first_matching_set_order:
  "first_matching_set txt =
     (if occurs_in (js ''cfi'') txt \<or> occurs_in (js ''rmsea'') txt
         \<or> occurs_in (js ''fit index'') txt
      then Some FIT_CHECKER
      else if occurs_in (js ''apa table'') txt \<or> occurs_in thai_table txt
      then Some APA_TABLE
      else if occurs_in (js ''jamovi'') txt \<or> occurs_in (js ''syntax'') txt
              \<or> occurs_in (js ''code'') txt
      then Some JAMOVI
      else None)"
  by (simp add: first_matching_set_def keyword_sets_def)

lemma nothing_occurs_in_empty: "first_matching_set [] = None"
  by (simp add: first_matching_set_order occurs_in_def js_def thai_table_def)

text \<open>
  C8. After a reply, the suggested tool is found from the lowercased reply text by
  checking the keyword sets in a fixed priority order (fit-index terms, then APA and
  table terms, then syntax and software terms): it is the panel of the first set one of
  whose keywords occurs in the text, and there is no suggestion when no set matches,
  when the reply has no text, or when the call failed.
\<close>

theorem suggestion_is_first_matching_set:
  "suggestedTool_after toLowerCase (Replied (Some answer)) prev
     = first_matching_set (toLowerCase answer)
   \<and> suggestedTool_after toLowerCase (Replied None) prev = None
   \<and> suggestedTool_after toLowerCase Failed prev = None
   \<and> first_matching_set txt =
       (if \<exists>k \<in> {js ''cfi'', js ''rmsea'', js ''fit index''}. occurs_in k txt
        then Some FIT_CHECKER
        else if \<exists>k \<in> {js ''apa table'', thai_table}. occurs_in k txt
        then Some APA_TABLE
        else if \<exists>k \<in> {js ''jamovi'', js ''syntax'', js ''code''}. occurs_in k txt
        then Some JAMOVI
        else None)"
proof (intro conjI)
  show "suggestedTool_after toLowerCase (Replied (Some answer)) prev
     = first_matching_set (toLowerCase answer)"
    by (simp add: suggestedTool_after_def Let_def includes_js_iff first_matching_set_order)
  have "suggestedTool_after toLowerCase (Replied None) prev = first_matching_set []"
    by (simp add: suggestedTool_after_def Let_def includes_js_iff first_matching_set_order)
  then show "suggestedTool_after toLowerCase (Replied None) prev = None"
    by (simp only: nothing_occurs_in_empty)
  show "suggestedTool_after toLowerCase Failed prev = None"
    by (simp add: suggestedTool_after_def)
  show "first_matching_set txt =
       (if \<exists>k \<in> {js ''cfi'', js ''rmsea'', js ''fit index''}. occurs_in k txt
        then Some FIT_CHECKER
        else if \<exists>k \<in> {js ''apa table'', thai_table}. occurs_in k txt
        then Some APA_TABLE
        else if \<exists>k \<in> {js ''jamovi'', js ''syntax'', js ''code''}. occurs_in k txt
        then Some JAMOVI
        else None)"
    by (simp add: first_matching_set_order)
qed

theorem suggestion_is_first_matching_set_witness:
  "first_matching_set (ascii_lower (js ''The CFI needs an APA table and code''))
     = Some FIT_CHECKER
   \<and> first_matching_set (ascii_lower (js ''Use an APA Table, then code'')) = Some APA_TABLE
   \<and> first_matching_set (ascii_lower (js ''see '' @ thai_table)) = Some APA_TABLE
   \<and> first_matching_set (ascii_lower (js ''Paste the Syntax'')) = Some JAMOVI
   \<and> first_matching_set (ascii_lower (js ''Hello'')) = None"
proof -
  have run:
    "suggestedTool_after ascii_lower
       (Replied (Some (js ''The CFI needs an APA table and code''))) (Some JAMOVI)
       = Some FIT_CHECKER"
    "suggestedTool_after ascii_lower
       (Replied (Some (js ''Use an APA Table, then code''))) (Some JAMOVI) = Some APA_TABLE"
    "suggestedTool_after ascii_lower
       (Replied (Some (js ''see '' @ thai_table))) (Some JAMOVI) = Some APA_TABLE"
    "suggestedTool_after ascii_lower
       (Replied (Some (js ''Paste the Syntax''))) (Some JAMOVI) = Some JAMOVI"
    "suggestedTool_after ascii_lower (Replied (Some (js ''Hello''))) (Some JAMOVI) = None"
    by (simp_all add: suggestedTool_after_def ascii_lower_def js_def thai_table_def)
  show ?thesis
    using run
      suggestion_is_first_matching_set
        [where toLowerCase = ascii_lower and prev = "Some JAMOVI"
           and answer = "js ''The CFI needs an APA table and code''"]
      suggestion_is_first_matching_set
        [where toLowerCase = ascii_lower and prev = "Some JAMOVI"
           and answer = "js ''Use an APA Table, then code''"]
      suggestion_is_first_matching_set
        [where toLowerCase = ascii_lower and prev = "Some JAMOVI"
           and answer = "js ''see '' @ thai_table"]
      suggestion_is_first_matching_set
        [where toLowerCase = ascii_lower and prev = "Some JAMOVI"
           and answer = "js ''Paste the Syntax''"]
      suggestion_is_first_matching_set
        [where toLowerCase = ascii_lower and prev = "Some JAMOVI"
           and answer = "js ''Hello''"]
    by (simp only:)
qed

section \<open>The table generator\<close>

lemma visible_indices_member:
  "int i \<in> set (visible_indices hs hidden) \<longleftrightarrow> i < length hs \<and> hs ! i \<notin> set hidden"
proof
  assume "int i \<in> set (visible_indices hs hidden)"
  then obtain p where p: "p \<in> set (enumerate 0 hs)"
    and eq: "int i = (if snd p \<in> set hidden then - 1 else int (fst p))"
    by (auto simp: visible_indices_def split: prod.splits if_splits)
  have shown: "snd p \<notin> set hidden"
  proof
    assume "snd p \<in> set hidden"
    with eq have "int i = - 1" by simp
    then show False by simp
  qed
  with eq have "i = fst p" by simp
  with p shown show "i < length hs \<and> hs ! i \<notin> set hidden"
    by (auto simp: in_set_enumerate_eq)
next
  assume v: "i < length hs \<and> hs ! i \<notin> set hidden"
  then have "(i, hs ! i) \<in> set (enumerate 0 hs)"
    by (simp add: in_set_enumerate_eq)
  then have "(case (i, hs ! i) of (i, h) \<Rightarrow> if h \<in> set hidden then - 1 else int i)
               \<in> (\<lambda>(i, h). if h \<in> set hidden then - 1 else int i) ` set (enumerate 0 hs)"
    by (rule imageI)
  with v show "int i \<in> set (visible_indices hs hidden)"
    by (simp add: visible_indices_def)
qed

lemma keep_indices_nths: "keep_indices indices xs = nths xs {i. int i \<in> set indices}"
proof -
  have "zip xs [0..<length xs] = map (\<lambda>(i, x). (x, i)) (zip [0..<length xs] xs)"
    by (rule zip_commute)
  then show ?thesis
    by (simp add: keep_indices_def nths_def enumerate_eq_zip filter_map comp_def
          case_prod_unfold)
qed

lemma foldl_markdown_rows:
  "foldl (\<lambda>mdTable row. mdTable @ markdown_row row) init body
     = init @ concat (map markdown_row body)"
  by (induction body arbitrary: init) simp_all


text \<open>
  C7 as stated fails. In a table whose body row has fewer fields than the header the
  positions the row lacks get no cell at all: the row is rendered shorter than the
  header, it is not filled up with empty cells.
\<close>

theorem short_row_not_padded_counterexample:
  "visible_table (js ''A,B'' @ [newline] @ js ''1'') [] = ([js ''A'', js ''B''], [[js ''1'']])
   \<and> padded_table (js ''A,B'' @ [newline] @ js ''1'') []
        = ([js ''A'', js ''B''], [[js ''1'', []]])
   \<and> visible_table (js ''A,B'' @ [newline] @ js ''1'') []
        \<noteq> padded_table (js ''A,B'' @ [newline] @ js ''1'') []
   \<and> handleCopyMarkdown (js ''T'') (js ''N'') [js ''A'', js ''B''] [[js ''1'']]
        = js ''**T*'' @ [newline, newline]
          @ js ''| A | B |'' @ [newline]
          @ js ''| --- | --- |'' @ [newline]
          @ js ''| 1 |'' @ [newline]
          @ [newline] @ js ''*N*''"
proof -
  define input where "input = js ''A,B'' @ [newline] @ js ''1''"
  have rows: "parse_rows input = [[js ''A'', js ''B''], [js ''1'']]"
    by (simp add: input_def parse_rows_def trim_def js_def newline_def comma_def
          isWhiteSpace_def)
  have code: "visible_table input [] = ([js ''A'', js ''B''], [[js ''1'']])"
    by (simp add: visible_table_def rows getVisibleData_def allHeaders_def allBody_def
          visible_indices_def keep_indices_def)
  have spec: "padded_table input [] = ([js ''A'', js ''B''], [[js ''1'', []]])"
    by (simp add: padded_table_def rows getVisibleData_def allHeaders_def allBody_def
          visible_indices_def keep_indices_def pad_row_def)
  have md: "handleCopyMarkdown (js ''T'') (js ''N'') [js ''A'', js ''B''] [[js ''1'']]
        = js ''**T*'' @ [newline, newline]
          @ js ''| A | B |'' @ [newline]
          @ js ''| --- | --- |'' @ [newline]
          @ js ''| 1 |'' @ [newline]
          @ [newline] @ js ''*N*''"
    by (simp add: handleCopyMarkdown_def markdown_row_def js_def newline_def)
  show ?thesis
    using code [unfolded input_def] spec [unfolded input_def] md by simp
qed

lemma keep_visible:
  "keep_indices (visible_indices hs hidden) xs = nths xs (visible_columns hs hidden)"
  by (simp add: keep_indices_nths visible_indices_member visible_columns_def)

text \<open>
  C7, amended. For every CSV text, also one in which a body row has fewer fields than
  the header row, the generated table is defined (no error is raised), its header is
  the visible columns of the header row, and each body row consists of exactly the
  fields that the row has at the visible column positions, in order: a position that
  the row lacks gets no cell. The preview, the Markdown export (one line per row) and
  the body handed to the PDF export all take these rows as they are.
\<close>

theorem short_rows_render_only_their_fields:
  "fst (visible_table dataText hidden)
     = nths (allHeaders (parse_rows dataText))
         (visible_columns (allHeaders (parse_rows dataText)) hidden)
   \<and> snd (visible_table dataText hidden)
     = map (\<lambda>row. nths row (visible_columns (allHeaders (parse_rows dataText)) hidden))
         (allBody (parse_rows dataText))
   \<and> (\<forall>row \<in> set (allBody (parse_rows dataText)).
         length (nths row (visible_columns (allHeaders (parse_rows dataText)) hidden))
           = card {i \<in> visible_columns (allHeaders (parse_rows dataText)) hidden.
                     i < length row})
   \<and> preview_cells h b = (h, b)
   \<and> autoTable_input h b = ([h], b)
   \<and> handleCopyMarkdown title note h b =
       js ''**'' @ replace_first newline (js ''**  '' @ [newline] @ js ''*'') title
       @ js ''*'' @ [newline, newline]
       @ markdown_row h @ markdown_row (map (\<lambda>_. js ''---'') h)
       @ concat (map markdown_row b)
       @ [newline] @ js ''*'' @ note @ js ''*''"
proof (intro conjI ballI)
  show "fst (visible_table dataText hidden)
     = nths (allHeaders (parse_rows dataText))
         (visible_columns (allHeaders (parse_rows dataText)) hidden)"
    by (simp add: visible_table_def getVisibleData_def Let_def keep_visible)
  show "snd (visible_table dataText hidden)
     = map (\<lambda>row. nths row (visible_columns (allHeaders (parse_rows dataText)) hidden))
         (allBody (parse_rows dataText))"
    by (simp add: visible_table_def getVisibleData_def Let_def keep_visible)
  show "length (nths row (visible_columns (allHeaders (parse_rows dataText)) hidden))
           = card {i \<in> visible_columns (allHeaders (parse_rows dataText)) hidden.
                     i < length row}"
    for row
  proof -
    have "{i. i < length row \<and> i \<in> visible_columns (allHeaders (parse_rows dataText)) hidden}
            = {i \<in> visible_columns (allHeaders (parse_rows dataText)) hidden. i < length row}"
      by auto
    then show ?thesis by (simp add: length_nths)
  qed
  show "preview_cells h b = (h, b)"
    by (simp add: preview_cells_def)
  show "autoTable_input h b = ([h], b)"
    by (simp add: autoTable_input_def)
  show "handleCopyMarkdown title note h b =
       js ''**'' @ replace_first newline (js ''**  '' @ [newline] @ js ''*'') title
       @ js ''*'' @ [newline, newline]
       @ markdown_row h @ markdown_row (map (\<lambda>_. js ''---'') h)
       @ concat (map markdown_row b)
       @ [newline] @ js ''*'' @ note @ js ''*''"
    by (simp add: handleCopyMarkdown_def Let_def foldl_markdown_rows)
qed

theorem short_rows_render_only_their_fields_witness:
  "visible_table (js ''A,B,C'' @ [newline] @ js ''1,2'') [js ''A'']
     = ([js ''B'', js ''C''], [[js ''2'']])
   \<and> [js ''1'', js ''2''] \<in> set (allBody (parse_rows (js ''A,B,C'' @ [newline] @ js ''1,2'')))
   \<and> nths [js ''1'', js ''2''] (visible_columns [js ''A'', js ''B'', js ''C''] [js ''A''])
       = [js ''2'']
   \<and> card {i \<in> visible_columns [js ''A'', js ''B'', js ''C''] [js ''A'']. i < 2} = 1"
proof -
  define input where "input = js ''A,B,C'' @ [newline] @ js ''1,2''"
  have rows: "parse_rows input = [[js ''A'', js ''B'', js ''C''], [js ''1'', js ''2'']]"
    by (simp add: input_def parse_rows_def trim_def js_def newline_def comma_def
          isWhiteSpace_def)
  have code: "visible_table input [js ''A''] = ([js ''B'', js ''C''], [[js ''2'']])"
    by (simp add: visible_table_def rows getVisibleData_def allHeaders_def allBody_def
          visible_indices_def keep_indices_def js_def)
  have hs: "allHeaders (parse_rows input) = [js ''A'', js ''B'', js ''C'']"
    and body: "allBody (parse_rows input) = [[js ''1'', js ''2'']]"
    by (simp_all add: rows allHeaders_def allBody_def)
  let ?V = "visible_columns [js ''A'', js ''B'', js ''C''] [js ''A'']"
  note inst = short_rows_render_only_their_fields
    [where dataText = input and hidden = "[js ''A'']", unfolded hs body]
  from inst have "snd (visible_table input [js ''A'']) = map (\<lambda>row. nths row ?V) [[js ''1'', js ''2'']]"
    by blast
  then have cells: "nths [js ''1'', js ''2''] ?V = [js ''2'']"
    by (simp add: code)
  from inst have "\<forall>row \<in> set [[js ''1'', js ''2'']].
      length (nths row ?V) = card {i \<in> ?V. i < length row}"
    by blast
  then have "length (nths [js ''1'', js ''2''] ?V) = card {i \<in> ?V. i < length [js ''1'', js ''2'']}"
    by simp
  then have count: "card {i \<in> ?V. i < 2} = 1"
    by (simp add: cells numeral_2_eq_2)
  have row: "[js ''1'', js ''2''] \<in> set (allBody (parse_rows input))"
    by (simp add: body)
  show ?thesis
    using code cells count row unfolding input_def by blast
qed


end
